theory Spec2Isabelle
  imports Complex_Main "HOL-Library.Multiset"
begin

section \<open>JavaScript values\<close>

text \<open>
  The rows of an uploaded file are objects whose \<open>id\<close> and \<open>text\<close> fields hold whatever the
  CSV parser produced (\<open>data: any[]\<close> in \<open>types/types.ts\<close>): a missing field is
  \<open>undefined\<close>, an empty cell is \<open>null\<close>, other cells are booleans, numbers or strings.
  Numbers are restricted to integers here, so that \<open>toString\<close> is the decimal numeral.
  Strings are lists of 8-bit characters.
\<close>

datatype jsval = JUndefined | JNull | JBool bool | JNum int | JStr string

text \<open>A JavaScript number that may be \<open>NaN\<close>; finite values are real numbers (exact arithmetic).\<close>

datatype number = NaN | Fin real

datatype js_error = TypeError | SyntaxError | ApiError | NetworkError

text \<open>Truthiness, as used by \<open>cond ? a : b\<close> and \<open>a || b\<close>.\<close>

definition truthy :: "jsval \<Rightarrow> bool" where
  "truthy v = (case v of JUndefined \<Rightarrow> False | JNull \<Rightarrow> False | JBool b \<Rightarrow> b
                 | JNum n \<Rightarrow> n \<noteq> 0 | JStr s \<Rightarrow> s \<noteq> [])"

fun show_nat :: "nat \<Rightarrow> string" where
  "show_nat n = (if n < 10 then [''0123456789'' ! n]
                 else show_nat (n div 10) @ [''0123456789'' ! (n mod 10)])"

declare show_nat.simps [simp del]

definition show_int :: "int \<Rightarrow> string" where
  "show_int n = (if n < 0 then CHR ''-'' # show_nat (nat (- n)) else show_nat (nat n))"

text \<open>\<open>v.toString()\<close>: a \<open>TypeError\<close> on \<open>undefined\<close> and \<open>null\<close>.\<close>

definition toString :: "jsval \<Rightarrow> js_error + string" where
  "toString v = (case v of JUndefined \<Rightarrow> Inl TypeError | JNull \<Rightarrow> Inl TypeError
                   | JBool b \<Rightarrow> Inr (if b then ''true'' else ''false'')
                   | JNum n \<Rightarrow> Inr (show_int n) | JStr s \<Rightarrow> Inr s)"

text \<open>\<open>v?.toString() || ''\<close>: optional chaining stops at \<open>undefined\<close> and \<open>null\<close>; an empty
  string is falsy and is replaced by the empty string.\<close>

definition toString_or_empty :: "jsval \<Rightarrow> string" where
  "toString_or_empty v = (case toString v of Inl e \<Rightarrow> [] | Inr s \<Rightarrow> if s = [] then [] else s)"

section \<open>Strings\<close>

text \<open>\<open>s.split(sep)\<close> for a one-character separator: the pieces between the occurrences of the
  separator, empty pieces included; the empty string gives one empty piece.\<close>

fun split_where :: "(char \<Rightarrow> bool) \<Rightarrow> string \<Rightarrow> string list" where
  "split_where sep [] = [[]]"
| "split_where sep (c # cs) =
     (if sep c then [] # split_where sep cs
      else (case split_where sep cs of piece # pieces \<Rightarrow> (c # piece) # pieces
            | [] \<Rightarrow> [[c]]))"

definition split_on :: "char \<Rightarrow> string \<Rightarrow> string list" where
  "split_on c s = split_where (\<lambda>x. x = c) s"

text \<open>\<open>s.toLowerCase()\<close> on ASCII letters; other characters are unchanged.\<close>

definition lower_char :: "char \<Rightarrow> char" where
  "lower_char c =
     (case map_of (zip ''ABCDEFGHIJKLMNOPQRSTUVWXYZ'' ''abcdefghijklmnopqrstuvwxyz'') c of
        None \<Rightarrow> c | Some l \<Rightarrow> l)"

definition toLowerCase :: "string \<Rightarrow> string" where
  "toLowerCase s = map lower_char s"

text \<open>The specification's tokenisation, written from its words: any run of whitespace (space,
  tab, newline, carriage return, vertical tab, form feed) is one separator, so the tokens are
  the maximal runs of other characters.\<close>

definition is_whitespace :: "char \<Rightarrow> bool" where
  "is_whitespace c = (c \<in> set [CHR '' '', CHR 0x09, CHR 0x0A, CHR 0x0D, CHR 0x0B, CHR 0x0C])"

definition whitespace_tokens :: "string \<Rightarrow> string list" where
  "whitespace_tokens s = filter (\<lambda>t. t \<noteq> []) (split_where is_whitespace s)"

section \<open>The lodash functions the analysis calls\<close>

text \<open>\<open>baseUniq\<close>: the values in order of first occurrence.\<close>

fun baseUniq :: "'a list \<Rightarrow> 'a list \<Rightarrow> 'a list" where
  "baseUniq [] result = result"
| "baseUniq (x # xs) result =
     (if x \<in> set result then baseUniq xs result else baseUniq xs (result @ [x]))"

definition uniq_lodash :: "'a list \<Rightarrow> 'a list" where
  "uniq_lodash array = baseUniq array []"

text \<open>\<open>_.intersection(...arrays)\<close>: the unique values of the first array that every other array
  includes; no array at all gives the empty array.\<close>

definition intersection_lodash :: "'a list list \<Rightarrow> 'a list" where
  "intersection_lodash arrays =
     (case arrays of [] \<Rightarrow> []
      | first # others \<Rightarrow> uniq_lodash (filter (\<lambda>x. list_all (\<lambda>other. x \<in> set other) others) first))"

text \<open>\<open>_.union(...arrays)\<close>: the unique values of all arrays, in order.\<close>

definition union_lodash :: "'a list list \<Rightarrow> 'a list" where
  "union_lodash arrays = uniq_lodash (concat arrays)"

text \<open>\<open>baseExtremum(array, iteratee, comparator)\<close>: the first element whose computed value the
  comparator prefers to all earlier ones; elements whose computed value is \<open>undefined\<close>
  (\<open>None\<close>) are skipped. The accumulator holds \<open>computed\<close> and \<open>result\<close>.\<close>

fun baseExtremum_loop ::
  "('a \<Rightarrow> 'b option) \<Rightarrow> ('b \<Rightarrow> 'b \<Rightarrow> bool) \<Rightarrow> 'a list \<Rightarrow> ('b \<times> 'a) option \<Rightarrow> ('b \<times> 'a) option" where
  "baseExtremum_loop iteratee comparator [] acc = acc"
| "baseExtremum_loop iteratee comparator (v # vs) acc =
     (case iteratee v of
        None \<Rightarrow> baseExtremum_loop iteratee comparator vs acc
      | Some current \<Rightarrow>
          (case acc of
             None \<Rightarrow> baseExtremum_loop iteratee comparator vs (Some (current, v))
           | Some (computed, result) \<Rightarrow>
               if comparator current computed
               then baseExtremum_loop iteratee comparator vs (Some (current, v))
               else baseExtremum_loop iteratee comparator vs acc))"

definition baseExtremum :: "('a \<Rightarrow> 'b option) \<Rightarrow> ('b \<Rightarrow> 'b \<Rightarrow> bool) \<Rightarrow> 'a list \<Rightarrow> 'a option" where
  "baseExtremum iteratee comparator array =
     map_option snd (baseExtremum_loop iteratee comparator array None)"

text \<open>\<open>_.min\<close>, \<open>_.max\<close> and \<open>_.minBy\<close>; \<open>undefined\<close> for an array with no defined value.\<close>

definition min_lodash :: "('a::linorder) option list \<Rightarrow> 'a option" where
  "min_lodash array = Option.bind (baseExtremum (\<lambda>v. v) (\<lambda>a b. a < b) array) (\<lambda>v. v)"

definition max_lodash :: "('a::linorder) option list \<Rightarrow> 'a option" where
  "max_lodash array = Option.bind (baseExtremum (\<lambda>v. v) (\<lambda>a b. a > b) array) (\<lambda>v. v)"

definition minBy_lodash :: "'a list \<Rightarrow> ('a \<Rightarrow> ('b::linorder) option) \<Rightarrow> 'a option" where
  "minBy_lodash array iteratee = baseExtremum iteratee (\<lambda>a b. a < b) array"

text \<open>\<open>baseSum\<close> skips \<open>undefined\<close> values and is \<open>undefined\<close> when there is none;
  \<open>_.mean\<close> is \<open>NaN\<close> on the empty array and divides the sum by the length otherwise
  (\<open>undefined / n\<close> is \<open>NaN\<close>).\<close>

fun baseSum :: "real option list \<Rightarrow> real option \<Rightarrow> real option" where
  "baseSum [] result = result"
| "baseSum (None # vs) result = baseSum vs result"
| "baseSum (Some current # vs) result =
     baseSum vs (case result of None \<Rightarrow> Some current | Some r \<Rightarrow> Some (r + current))"

definition mean_lodash :: "real option list \<Rightarrow> number" where
  "mean_lodash array =
     (if length array = 0 then NaN
      else (case baseSum array None of None \<Rightarrow> NaN
            | Some s \<Rightarrow> Fin (s / real (length array))))"

text \<open>\<open>baseRange\<close> and \<open>_.range(start, end, step)\<close>: \<open>max(ceil((end - start) / (step || 1)), 0)\<close>
  values, each the previous one plus \<open>step\<close>.\<close>

fun baseRange_loop :: "nat \<Rightarrow> real \<Rightarrow> real \<Rightarrow> real list" where
  "baseRange_loop 0 start step = []"
| "baseRange_loop (Suc n) start step = start # baseRange_loop n (start + step) step"

definition range_lodash :: "real \<Rightarrow> real \<Rightarrow> real \<Rightarrow> real list" where
  "range_lodash start end step =
     baseRange_loop (nat (max \<lceil>(end - start) / (if step = 0 then 1 else step)\<rceil> 0)) start step"

text \<open>\<open>_.countBy\<close>: an object from each value to the number of its occurrences, kept as the list
  of its properties. \<open>_.isEqual\<close> on two such objects: as many properties, and every property
  of the first is a property of the second with the same value.\<close>

fun countBy_loop :: "'a list \<Rightarrow> ('a \<times> nat) list \<Rightarrow> ('a \<times> nat) list" where
  "countBy_loop [] result = result"
| "countBy_loop (key # keys) result =
     (case map_of result key of
        Some n \<Rightarrow> countBy_loop keys (map (\<lambda>(k, c). if k = key then (k, Suc c) else (k, c)) result)
      | None \<Rightarrow> countBy_loop keys (result @ [(key, 1)]))"

definition countBy_lodash :: "'a list \<Rightarrow> ('a \<times> nat) list" where
  "countBy_lodash collection = countBy_loop collection []"

definition isEqual_lodash :: "('a \<times> nat) list \<Rightarrow> ('a \<times> nat) list \<Rightarrow> bool" where
  "isEqual_lodash object other =
     (length object = length other \<and> list_all (\<lambda>(k, c). map_of other k = Some c) object)"

text \<open>\<open>parseFloat(x.toFixed(2))\<close>: the nearest multiple of 0.01, a tie going away from zero;
  \<open>NaN\<close> stays \<open>NaN\<close>.\<close>

definition toFixed2 :: "number \<Rightarrow> number" where
  "toFixed2 x = (case x of NaN \<Rightarrow> NaN
                 | Fin r \<Rightarrow> Fin (if r < 0 then - (of_int \<lfloor>- r * 100 + 1 / 2\<rfloor> / 100)
                                  else of_int \<lfloor>r * 100 + 1 / 2\<rfloor> / 100))"

text \<open>\<open>x || d\<close> on a number that may be \<open>undefined\<close>: \<open>undefined\<close> and \<open>0\<close> are falsy.\<close>

definition or_default :: "('a::zero) option \<Rightarrow> 'a \<Rightarrow> 'a" where
  "or_default x d = (case x of None \<Rightarrow> d | Some v \<Rightarrow> if v = 0 then d else v)"

text \<open>\<open>array.map(f)\<close> with a callback that may throw: the first throw ends the call.\<close>

fun map_throwing :: "('a \<Rightarrow> js_error + 'b) \<Rightarrow> 'a list \<Rightarrow> js_error + 'b list" where
  "map_throwing f [] = Inr []"
| "map_throwing f (x # xs) =
     (case f x of Inl e \<Rightarrow> Inl e
      | Inr y \<Rightarrow> (case map_throwing f xs of Inl e \<Rightarrow> Inl e | Inr ys \<Rightarrow> Inr (y # ys)))"

section \<open>The data model (types/types.ts)\<close>

record row =
  row_id :: jsval
  row_text :: jsval

record FileData =
  file_id :: string
  name :: string
  content :: string
  data :: "row list"
  file_fields :: "string list"
  isValid :: bool

record FileStats =
  stats_name :: string
  rowCount :: nat
  avgWordCount :: number
  maxWordCount :: nat
  minWordCount :: nat

record comparison_row =
  cmp_id :: jsval
  file1Text :: string
  file2Text :: string
  wordsMatch :: bool
  textsDifferent :: bool

record FileComparison =
  file1Name :: string
  file2Name :: string
  cmp_data :: "comparison_row list"
  differentTexts :: nat
  sameWords :: nat

text \<open>A score's \<open>perplexity\<close> is \<open>None\<close> when the scorer returned \<open>undefined\<close>.\<close>

record score =
  score_id :: jsval
  score_text :: string
  perplexity :: "real option"

record PerplexityScore =
  score_name :: string
  avgPerplexity :: number
  scores :: "score list"
  distribution :: "(real \<times> nat) list"

record BestText = score +
  source :: string

record AnalysisResult =
  fileStats :: "FileStats list"
  comparison :: "FileComparison option"
  commonIds :: nat
  totalUniqueIds :: nat
  perplexityScores :: "PerplexityScore list"
  bestTexts :: "BestText list"

section \<open>The scorer (utils/perplexityUtils.ts)\<close>

text \<open>
  What \<open>fetch\<close> and \<open>response.json()\<close> can do: the request is rejected (a network error), or a
  response arrives with its \<open>ok\<close> flag and a body. The body is not JSON, or the JSON value
  \<open>null\<close>, or another JSON value, of which only the \<open>perplexity\<close> property matters: absent
  (\<open>None\<close>, read as \<open>undefined\<close>) or a number. A \<open>perplexity\<close> property of another type is
  outside this model.
\<close>

datatype response_body = NotJson | JsonNull | JsonValue "real option"

datatype fetch_outcome = FetchRejected | Response bool response_body

text \<open>The body of the \<open>try\<close> block: every \<open>throw\<close> is a left value.\<close>

definition remote_attempt :: "fetch_outcome \<Rightarrow> js_error + real option" where
  "remote_attempt outcome =
     (case outcome of
        FetchRejected \<Rightarrow> Inl NetworkError
      | Response ok body \<Rightarrow>
          if \<not> ok then Inl ApiError
          else (case body of NotJson \<Rightarrow> Inl SyntaxError | JsonNull \<Rightarrow> Inl TypeError
                | JsonValue p \<Rightarrow> Inr p))"

text \<open>The local heuristic: \<open>text.split(' ').length\<close>, the size of the set of the lower-case
  pieces, and \<open>5 + 25 * (1 - entropy) * Math.random()\<close> with the random draw \<open>u\<close>.\<close>

definition wordCount_of :: "string \<Rightarrow> nat" where
  "wordCount_of text = length (split_on CHR '' '' text)"

definition uniqueWords_of :: "string \<Rightarrow> nat" where
  "uniqueWords_of text = length (remdups (split_on CHR '' '' (toLowerCase text)))"

definition local_score :: "string \<Rightarrow> real \<Rightarrow> real" where
  "local_score text u =
     (let wordCount = real (wordCount_of text);
          uniqueWords = real (uniqueWords_of text);
          entropy = uniqueWords / wordCount
      in 5 + 25 * (1 - entropy) * u)"

text \<open>
  \<open>calculatePerplexity(text, useRemoteApi, onApiError)\<close>. The outcome of the request and the
  random draw are arguments; the state \<open>s\<close> is what the notification hook changes. The result
  is the value the promise resolves to, or the error it rejects with, and the new state.
  The \<open>catch\<close> block calls the hook when there is one and calls the function again with
  \<open>useRemoteApi = false\<close> and no hook. Logging to the console is left out.
\<close>

function calculatePerplexity ::
  "string \<Rightarrow> bool \<Rightarrow> ('s \<Rightarrow> 's) option \<Rightarrow> fetch_outcome \<Rightarrow> real \<Rightarrow> 's \<Rightarrow> (js_error + real option) \<times> 's" where
  "calculatePerplexity text useRemoteApi onApiError outcome u s =
     (if \<not> useRemoteApi then (Inr (Some (local_score text u)), s)
      else (case remote_attempt outcome of
              Inr p \<Rightarrow> (Inr p, s)
            | Inl e \<Rightarrow>
                calculatePerplexity text False None outcome u
                  (case onApiError of None \<Rightarrow> s | Some hook \<Rightarrow> hook s)))"
  by pat_completeness auto
termination
  by (relation "measure (\<lambda>(text, useRemoteApi, rest). if useRemoteApi then 1 else 0)") auto

declare calculatePerplexity.simps [simp del]

section \<open>The analysis (utils/analysisUtils.ts)\<close>

subsection \<open>File statistics\<close>

text \<open>\<open>row.text ? row.text.toString().split(' ').length : 0\<close>. A truthy value has a
  \<open>toString\<close>, so the error branch is never taken.\<close>

definition wordCount :: "jsval \<Rightarrow> nat" where
  "wordCount text =
     (if truthy text
      then (case toString text of Inr s \<Rightarrow> length (split_on CHR '' '' s) | Inl e \<Rightarrow> 0)
      else 0)"

definition fileStats_of :: "FileData \<Rightarrow> FileStats" where
  "fileStats_of file =
     (let textLengths = map (\<lambda>row. wordCount (row_text row)) (data file)
      in \<lparr>stats_name = name file,
          rowCount = length (data file),
          avgWordCount = toFixed2 (mean_lodash (map (\<lambda>n. Some (real n)) textLengths)),
          maxWordCount = or_default (max_lodash (map Some textLengths)) 0,
          minWordCount = or_default (min_lodash (map Some textLengths)) 0\<rparr>)"

subsection \<open>Comparison of the first two files\<close>

definition words_match :: "string \<Rightarrow> string \<Rightarrow> bool" where
  "words_match text1 text2 =
     isEqual_lodash (countBy_lodash (split_on CHR '' '' text1))
                    (countBy_lodash (split_on CHR '' '' text2))"

definition texts_different :: "string \<Rightarrow> string \<Rightarrow> bool" where
  "texts_different text1 text2 = (text1 \<noteq> text2)"

definition comparison_of :: "FileData \<Rightarrow> FileData \<Rightarrow> FileComparison" where
  "comparison_of file1 file2 =
     (let file1Ids = map row_id (data file1);
          file2Ids = map row_id (data file2);
          ids = intersection_lodash [file1Ids, file2Ids];
          comparisonData = concat (map (\<lambda>i.
            (case (find (\<lambda>row. row_id row = i) (data file1),
                   find (\<lambda>row. row_id row = i) (data file2)) of
               (Some file1Row, Some file2Row) \<Rightarrow>
                 (let text1 = toString_or_empty (row_text file1Row);
                      text2 = toString_or_empty (row_text file2Row)
                  in [\<lparr>cmp_id = i, file1Text = text1, file2Text = text2,
                        wordsMatch = words_match text1 text2,
                        textsDifferent = texts_different text1 text2\<rparr>])
             | _ \<Rightarrow> [])) ids)
      in \<lparr>file1Name = name file1, file2Name = name file2, cmp_data = comparisonData,
          differentTexts = length (filter textsDifferent comparisonData),
          sameWords = length (filter wordsMatch comparisonData)\<rparr>)"

subsection \<open>Scores and their histogram\<close>

text \<open>The buckets of one file: pairs of \<open>bucket\<close> and \<open>count\<close>. A comparison with an
  \<open>undefined\<close> score is false. Scores and bucket starts are real numbers and
  the arithmetic is exact, where the source computes in IEEE doubles. The two agree where every
  quantity is an integer below \<open>2^53\<close> in magnitude, and the theorems about the histogram are
  stated for such inputs only; on other inputs rounding can change the number of buckets.\<close>

definition distribution_of :: "real option list \<Rightarrow> (real \<times> nat) list" where
  "distribution_of perplexityValues =
     (let min_v = real_of_int \<lfloor>or_default (min_lodash perplexityValues) 0\<rfloor>;
          max_v = real_of_int \<lceil>or_default (max_lodash perplexityValues) 30\<rceil>;
          range_v = max_v - min_v;
          bucketSize = range_v / 10;
          buckets = range_lodash min_v (max_v + bucketSize) bucketSize
      in map (\<lambda>bucket.
            (bucket, length (filter (\<lambda>p. case p of None \<Rightarrow> False
                                          | Some v \<Rightarrow> v \<ge> bucket \<and> v < bucket + bucketSize)
                               perplexityValues))) buckets)"

text \<open>One call of the scorer per row, in row order; \<open>env i\<close> is the request's outcome and the
  random draw of the row at index \<open>i\<close>. Every failed request calls the same hook, so the final
  state does not depend on the order in which the requests complete.\<close>

fun score_rows ::
  "bool \<Rightarrow> ('s \<Rightarrow> 's) \<Rightarrow> (nat \<Rightarrow> fetch_outcome \<times> real) \<Rightarrow> nat \<Rightarrow> row list \<Rightarrow> 's
     \<Rightarrow> (js_error + score list) \<times> 's" where
  "score_rows useRemoteApi onApiError env i [] s = (Inr [], s)"
| "score_rows useRemoteApi onApiError env i (row # rows) s =
     (let text = toString_or_empty (row_text row)
      in case calculatePerplexity text useRemoteApi (Some onApiError) (fst (env i)) (snd (env i)) s of
           (Inl e, s') \<Rightarrow> (Inl e, s')
         | (Inr p, s') \<Rightarrow>
             (case score_rows useRemoteApi onApiError env (Suc i) rows s' of
                (Inl e, s'') \<Rightarrow> (Inl e, s'')
              | (Inr rest, s'') \<Rightarrow>
                  (Inr (\<lparr>score_id = row_id row, score_text = text, perplexity = p\<rparr> # rest), s'')))"

definition perplexityScore_of :: "string \<Rightarrow> score list \<Rightarrow> PerplexityScore" where
  "perplexityScore_of file_name file_scores =
     (let perplexityValues = map perplexity file_scores
      in \<lparr>score_name = file_name,
          avgPerplexity = mean_lodash (map perplexity file_scores),
          scores = file_scores,
          distribution = distribution_of perplexityValues\<rparr>)"

fun score_files ::
  "bool \<Rightarrow> ('s \<Rightarrow> 's) \<Rightarrow> (nat \<Rightarrow> nat \<Rightarrow> fetch_outcome \<times> real) \<Rightarrow> nat \<Rightarrow> FileData list \<Rightarrow> 's
     \<Rightarrow> (js_error + PerplexityScore list) \<times> 's" where
  "score_files useRemoteApi onApiError env j [] s = (Inr [], s)"
| "score_files useRemoteApi onApiError env j (file # files) s =
     (case score_rows useRemoteApi onApiError (env j) 0 (data file) s of
        (Inl e, s') \<Rightarrow> (Inl e, s')
      | (Inr file_scores, s') \<Rightarrow>
          (case score_files useRemoteApi onApiError env (Suc j) files s' of
             (Inl e, s'') \<Rightarrow> (Inl e, s'')
           | (Inr rest, s'') \<Rightarrow> (Inr (perplexityScore_of (name file) file_scores # rest), s'')))"

subsection \<open>The best text of every id\<close>

definition allScores_of :: "PerplexityScore list \<Rightarrow> BestText list" where
  "allScores_of reports =
     concat (map (\<lambda>file. map (\<lambda>sc. \<lparr>score_id = score_id sc, score_text = score_text sc,
                                      perplexity = perplexity sc, source = score_name file\<rparr>)
                             (scores file)) reports)"

definition bestTexts_of :: "PerplexityScore list \<Rightarrow> BestText list" where
  "bestTexts_of reports =
     (let allScores = allScores_of reports;
          uniqueIds = uniq_lodash (map score_id allScores)
      in List.map_filter
           (\<lambda>i. minBy_lodash (filter (\<lambda>sc. score_id sc = i) allScores) perplexity)
           uniqueIds)"

subsection \<open>Id counts and the whole analysis\<close>

definition allIds_of :: "FileData list \<Rightarrow> js_error + string list list" where
  "allIds_of selectedFiles =
     map_throwing (\<lambda>file. map_throwing (\<lambda>row. toString (row_id row)) (data file)) selectedFiles"

definition analyzeFiles ::
  "FileData list \<Rightarrow> bool \<Rightarrow> ('s \<Rightarrow> 's) \<Rightarrow> (nat \<Rightarrow> nat \<Rightarrow> fetch_outcome \<times> real) \<Rightarrow> 's
     \<Rightarrow> (js_error + AnalysisResult) \<times> 's" where
  "analyzeFiles selectedFiles useRemoteApi onApiError env s =
     (let stats = map fileStats_of selectedFiles;
          cmp = (if length selectedFiles > 1
                 then Some (comparison_of (selectedFiles ! 0) (selectedFiles ! 1)) else None)
      in case score_files useRemoteApi onApiError env 0 selectedFiles s of
           (Inl e, s') \<Rightarrow> (Inl e, s')
         | (Inr reports, s') \<Rightarrow>
             (let best = bestTexts_of reports
              in case allIds_of selectedFiles of
                   Inl e \<Rightarrow> (Inl e, s')
                 | Inr allIds \<Rightarrow>
                     (Inr \<lparr>fileStats = stats, comparison = cmp,
                           commonIds = length (intersection_lodash allIds),
                           totalUniqueIds = length (union_lodash allIds),
                           perplexityScores = reports, bestTexts = best\<rparr>, s')))"

subsection \<open>The id sets of the invariant, and example files\<close>

text \<open>The ids of a file as strings: the set that \<open>row.id.toString()\<close> ranges over.\<close>

definition id_strings :: "FileData \<Rightarrow> string set" where
  "id_strings file =
     set (concat (map (\<lambda>row. case toString (row_id row) of Inr s \<Rightarrow> [s] | Inl e \<Rightarrow> [])
                      (data file)))"

text \<open>The ids of a file as found in its rows.\<close>

definition raw_ids :: "FileData \<Rightarrow> jsval set" where
  "raw_ids file = set (map row_id (data file))"

text \<open>A valid file with the given name and rows of id and text. Files A and B are the
  end-to-end example of the specification; C has the id 1 as a string; D has a row with an
  empty id cell.\<close>

definition example_file :: "string \<Rightarrow> (jsval \<times> string) list \<Rightarrow> FileData" where
  "example_file n rows =
     \<lparr>file_id = n, name = n, content = [],
      data = map (\<lambda>(i, t). \<lparr>row_id = i, row_text = JStr t\<rparr>) rows,
      file_fields = [''id'', ''text''], isValid = True\<rparr>"

definition example_A :: FileData where
  "example_A = example_file ''A'' [(JNum 1, ''the cat sat''), (JNum 2, ''the dog ran'')]"

definition example_B :: FileData where
  "example_B = example_file ''B'' [(JNum 1, ''the cat sat''), (JNum 2, ''a dog ran'')]"

definition example_C :: FileData where
  "example_C = example_file ''C'' [(JStr ''1'', ''the cat'')]"





text \<open>An environment in which every request is rejected and every random draw is 1/2.\<close>

definition example_env :: "nat \<Rightarrow> nat \<Rightarrow> fetch_outcome \<times> real" where
  "example_env j i = (FetchRejected, 1 / 2)"

section \<open>Facts about strings and the local heuristic\<close>

text \<open>The last case of \<open>split_where\<close> is never taken.\<close>

lemma split_where_nonempty: "split_where sep s \<noteq> []"
  by (induction s) (auto split: list.splits)

lemma length_split_where: "length (split_where sep s) = Suc (length (filter sep s))"
proof (induction s)
  case Nil
  show ?case by simp
next
  case (Cons c cs)
  then show ?case
    using split_where_nonempty [of sep cs] by (cases "split_where sep cs") auto
qed

lemma length_split_on: "length (split_on c s) = Suc (count_list s c)"
proof -
  have "length (filter (\<lambda>x. x = c) s) = count_list s c"
    by (induction s) auto
  then show ?thesis by (simp add: split_on_def length_split_where)
qed

text \<open>The error branch of \<open>wordCount\<close> is unreachable.\<close>

lemma toString_truthy: "truthy v \<Longrightarrow> \<exists>s. toString v = Inr s"
  by (cases v) (auto simp: truthy_def toString_def)

text \<open>The divisor of the local heuristic is never zero.\<close>

lemma wordCount_of_pos: "0 < wordCount_of t"
  by (simp add: wordCount_of_def length_split_on)

lemma lower_char_space: "lower_char c = CHR '' '' \<longleftrightarrow> c = CHR '' ''"
  by (simp add: lower_char_def)

lemma count_space_toLowerCase: "count_list (toLowerCase s) CHR '' '' = count_list s CHR '' ''"
  by (induction s) (auto simp: toLowerCase_def lower_char_space)

lemma uniqueWords_le: "uniqueWords_of t \<le> wordCount_of t"
proof -
  have "length (remdups (split_on CHR '' '' (toLowerCase t)))
          \<le> length (split_on CHR '' '' (toLowerCase t))"
    by (rule length_remdups_leq)
  then show ?thesis
    by (simp add: uniqueWords_of_def wordCount_of_def length_split_on count_space_toLowerCase)
qed

lemma local_score_alt:
  "local_score t u = 5 + 25 * (1 - real (uniqueWords_of t) / real (wordCount_of t)) * u"
  by (simp add: local_score_def Let_def)

lemma calculatePerplexity_local:
  "calculatePerplexity t False hook outcome u s = (Inr (Some (local_score t u)), s)"
  by (simp add: calculatePerplexity.simps)

lemma local_score_varies:
  "(\<exists>u1 u2. 0 \<le> u1 \<and> u1 < 1 \<and> 0 \<le> u2 \<and> u2 < 1 \<and> local_score t u1 \<noteq> local_score t u2)
     \<longleftrightarrow> uniqueWords_of t < wordCount_of t"
proof
  assume "\<exists>u1 u2. 0 \<le> u1 \<and> u1 < 1 \<and> 0 \<le> u2 \<and> u2 < 1 \<and> local_score t u1 \<noteq> local_score t u2"
  then obtain u1 u2 where d: "local_score t u1 \<noteq> local_score t u2" by blast
  show "uniqueWords_of t < wordCount_of t"
  proof (rule ccontr)
    assume "\<not> uniqueWords_of t < wordCount_of t"
    with uniqueWords_le [of t] have e: "uniqueWords_of t = wordCount_of t" by simp
    have "real (wordCount_of t) / real (wordCount_of t) = 1"
      using wordCount_of_pos [of t] by simp
    with e have "local_score t u1 = local_score t u2"
      by (simp add: local_score_alt)
    with d show False by simp
  qed
next
  assume lt: "uniqueWords_of t < wordCount_of t"
  then have "real (uniqueWords_of t) / real (wordCount_of t) < 1"
    by simp
  then have "local_score t 0 \<noteq> local_score t (1 / 2)"
    by (simp add: local_score_alt)
  moreover have "(0::real) \<le> 0 \<and> (0::real) < 1 \<and> (0::real) \<le> 1 / 2 \<and> (1 / 2 :: real) < 1"
    by simp
  ultimately show "\<exists>u1 u2. 0 \<le> u1 \<and> u1 < 1 \<and> 0 \<le> u2 \<and> u2 < 1 \<and>
      local_score t u1 \<noteq> local_score t u2"
    by blast
qed

lemma uniqueWords_a_a: "uniqueWords_of ''a a'' = 1"
  by (simp add: uniqueWords_of_def toLowerCase_def lower_char_def split_on_def)

lemma wordCount_a_a: "wordCount_of ''a a'' = 2"
  by (simp add: wordCount_of_def split_on_def)

lemma uniqueWords_a_b: "uniqueWords_of ''a b'' = 2"
  by (simp add: uniqueWords_of_def toLowerCase_def lower_char_def split_on_def)

lemma wordCount_a_b: "wordCount_of ''a b'' = 2"
  by (simp add: wordCount_of_def split_on_def)

lemma local_score_a_a: "local_score ''a a'' u = 5 + 25 / 2 * u"
  by (simp add: local_score_alt uniqueWords_a_a wordCount_a_a)

lemma remote_attempt_failure:
  "(\<exists>e. remote_attempt outcome = Inl e) \<longleftrightarrow>
     (outcome = FetchRejected \<or> (\<exists>body. outcome = Response False body) \<or>
      outcome = Response True NotJson \<or> outcome = Response True JsonNull)"
  by (auto simp: remote_attempt_def split: fetch_outcome.splits response_body.splits)

text \<open>The promise of the scorer is never rejected, whatever the request does.\<close>

lemma calculatePerplexity_never_throws:
  "\<exists>p s'. calculatePerplexity t useRemoteApi onApiError outcome u s = (Inr p, s')"
proof (cases useRemoteApi)
  case False
  then show ?thesis by (simp add: calculatePerplexity_local)
next
  case True
  show ?thesis
  proof (cases "remote_attempt outcome")
    case (Inl e)
    with True show ?thesis
      by (simp add: calculatePerplexity.simps [of t True] calculatePerplexity_local)
  next
    case (Inr p)
    with True show ?thesis
      by (simp add: calculatePerplexity.simps [of t True])
  qed
qed

section \<open>File statistics\<close>

text \<open>
  C1. The statistics of a file have \<open>rowCount\<close> equal to the number of its rows. For a file
  with no rows \<open>maxWordCount\<close> and \<open>minWordCount\<close> are 0 (the \<open>|| 0\<close> of the source), but
  \<open>avgWordCount\<close> is \<open>parseFloat(_.mean([]).toFixed(2))\<close>, which is \<open>NaN\<close> and not 0: the mean
  has no guard against the empty array.
\<close>

theorem fileStats_rowCount_and_empty:
  "rowCount (fileStats_of file) = length (data file) \<and>
   (data file = [] \<longrightarrow>
      avgWordCount (fileStats_of file) = NaN \<and>
      maxWordCount (fileStats_of file) = 0 \<and>
      minWordCount (fileStats_of file) = 0)"
  by (simp add: fileStats_of_def Let_def mean_lodash_def toFixed2_def max_lodash_def
      min_lodash_def baseExtremum_def or_default_def)

text \<open>A file with the header line only: no rows, and an average that is not the number 0.\<close>

theorem fileStats_rowCount_and_empty_witness:
  "rowCount (fileStats_of \<lparr>file_id = ''file-1'', name = ''empty.csv'', content = ''id,text'',
       data = [], file_fields = [''id'', ''text''], isValid = True\<rparr>) = 0 \<and>
   avgWordCount (fileStats_of \<lparr>file_id = ''file-1'', name = ''empty.csv'', content = ''id,text'',
       data = [], file_fields = [''id'', ''text''], isValid = True\<rparr>) = NaN \<and>
   avgWordCount (fileStats_of \<lparr>file_id = ''file-1'', name = ''empty.csv'', content = ''id,text'',
       data = [], file_fields = [''id'', ''text''], isValid = True\<rparr>) \<noteq> Fin 0"
  using fileStats_rowCount_and_empty
    [of "\<lparr>file_id = ''file-1'', name = ''empty.csv'', content = ''id,text'',
       data = [], file_fields = [''id'', ''text''], isValid = True\<rparr>"]
  by simp

text \<open>
  C5, as amended. The word count of a row whose text is a non-empty string is the number of
  pieces \<open>split(' ')\<close> gives, which is the number of space characters plus one: every single
  space separates, so consecutive spaces give empty pieces that are counted, and tabs and
  newlines do not separate. An empty, \<open>null\<close> or missing text has word count 0.
\<close>

theorem wordCount_single_space_split:
  "wordCount (JStr s) = (if s = [] then 0 else length (split_on CHR '' '' s)) \<and>
   length (split_on CHR '' '' s) = Suc (count_list s CHR '' '') \<and>
   wordCount (JStr []) = 0 \<and> wordCount JUndefined = 0 \<and> wordCount JNull = 0"
  by (simp add: wordCount_def truthy_def toString_def length_split_on)

theorem wordCount_single_space_split_witness:
  "wordCount (JStr ''the cat  sat'') = 4 \<and> count_list ''the cat  sat'' CHR '' '' = 3"
  using wordCount_single_space_split [of "''the cat  sat''"] by simp

text \<open>
  C5 as stated fails: with two spaces between two words the source counts three pieces where
  the whitespace tokens are two, and with a tab between them it counts one.
\<close>

theorem wordCount_counterexample:
  "wordCount (JStr ''a  b'') = 3 \<and> length (whitespace_tokens ''a  b'') = 2 \<and>
   wordCount (JStr [CHR ''a'', CHR 0x09, CHR ''b'']) = 1 \<and>
   length (whitespace_tokens [CHR ''a'', CHR 0x09, CHR ''b'']) = 2"
  by (simp add: wordCount_def truthy_def toString_def split_on_def whitespace_tokens_def
      is_whitespace_def)

section \<open>The scorer\<close>

text \<open>
  C9, as amended. Two calls of the local strategy on the same text can return different scores
  exactly when some lower-case piece of the text occurs twice (\<open>uniqueWords < wordCount\<close>):
  then there are draws in \<open>[0, 1)\<close> that give different scores. When all pieces are distinct
  the factor \<open>1 - entropy\<close> is 0 and every call returns 5.
\<close>

theorem local_strategy_varies_iff_repeated_word:
  "((\<exists>u1 u2. 0 \<le> u1 \<and> u1 < 1 \<and> 0 \<le> u2 \<and> u2 < 1 \<and>
       fst (calculatePerplexity t False hook outcome u1 s)
         \<noteq> fst (calculatePerplexity t False hook outcome u2 s))
     \<longleftrightarrow> uniqueWords_of t < wordCount_of t) \<and>
   (\<not> uniqueWords_of t < wordCount_of t \<longrightarrow>
      fst (calculatePerplexity t False hook outcome u s) = Inr (Some 5))"
proof -
  have "\<not> uniqueWords_of t < wordCount_of t \<longrightarrow> local_score t u = 5"
  proof
    assume "\<not> uniqueWords_of t < wordCount_of t"
    with uniqueWords_le [of t] have e: "uniqueWords_of t = wordCount_of t" by simp
    have "real (wordCount_of t) / real (wordCount_of t) = 1"
      using wordCount_of_pos [of t] by simp
    with e show "local_score t u = 5" by (simp add: local_score_alt)
  qed
  with local_score_varies [of t] show ?thesis by (simp add: calculatePerplexity_local)
qed

theorem local_strategy_varies_iff_repeated_word_witness:
  "(\<exists>u1 u2. 0 \<le> u1 \<and> u1 < 1 \<and> 0 \<le> u2 \<and> u2 < 1 \<and>
       fst (calculatePerplexity ''a a'' False None FetchRejected u1 ())
         \<noteq> fst (calculatePerplexity ''a a'' False None FetchRejected u2 ())) \<and>
   uniqueWords_of ''a a'' < wordCount_of ''a a'' \<and>
   fst (calculatePerplexity ''a b'' False None FetchRejected (1 / 2) ()) = Inr (Some 5)"
  using local_strategy_varies_iff_repeated_word [of "''a a''" None FetchRejected "()"]
    local_strategy_varies_iff_repeated_word [of "''a b''" None FetchRejected "()" "1 / 2"]
  by (simp add: uniqueWords_a_a wordCount_a_a uniqueWords_a_b wordCount_a_b)

text \<open>
  C9 as stated fails: on the text \<open>a b\<close> no two draws give different results.
\<close>

theorem local_strategy_counterexample:
  "\<not> (\<exists>u1 u2. 0 \<le> u1 \<and> u1 < 1 \<and> 0 \<le> u2 \<and> u2 < 1 \<and>
        fst (calculatePerplexity ''a b'' False None FetchRejected u1 ())
          \<noteq> fst (calculatePerplexity ''a b'' False None FetchRejected u2 ()))"
  by (simp add: calculatePerplexity_local local_score_alt uniqueWords_a_b wordCount_a_b)

text \<open>
  C4. When the request is rejected, or the response is not \<open>ok\<close>, or its body is not JSON or
  is the JSON value \<open>null\<close>, \<open>calculatePerplexity\<close> with the remote strategy calls the
  notification hook (when one is given), resolves to the score of the local heuristic, the
  same as the local call made after the hook, and does not reject. An \<open>ok\<close> response whose
  JSON body has no \<open>perplexity\<close> property takes neither path: the call resolves to
  \<open>undefined\<close>, the hook is not called and the local heuristic is not used, although the
  function is declared to return a number and the other malformed bodies fall back.
\<close>

theorem remote_fallback_and_missing_field:
  "(outcome = FetchRejected \<or> (\<exists>body. outcome = Response False body) \<or>
    outcome = Response True NotJson \<or> outcome = Response True JsonNull \<longrightarrow>
      calculatePerplexity t True onApiError outcome u s =
        (Inr (Some (local_score t u)), (case onApiError of None \<Rightarrow> s | Some hook \<Rightarrow> hook s)) \<and>
      calculatePerplexity t True onApiError outcome u s =
        calculatePerplexity t False None outcome u
          (case onApiError of None \<Rightarrow> s | Some hook \<Rightarrow> hook s)) \<and>
   calculatePerplexity t True onApiError (Response True (JsonValue None)) u s = (Inr None, s)"
proof -
  have a: "outcome = FetchRejected \<or> (\<exists>body. outcome = Response False body) \<or>
    outcome = Response True NotJson \<or> outcome = Response True JsonNull \<longrightarrow>
      calculatePerplexity t True onApiError outcome u s =
        (Inr (Some (local_score t u)), (case onApiError of None \<Rightarrow> s | Some hook \<Rightarrow> hook s)) \<and>
      calculatePerplexity t True onApiError outcome u s =
        calculatePerplexity t False None outcome u
          (case onApiError of None \<Rightarrow> s | Some hook \<Rightarrow> hook s)"
  proof
    assume "outcome = FetchRejected \<or> (\<exists>body. outcome = Response False body) \<or>
      outcome = Response True NotJson \<or> outcome = Response True JsonNull"
    then obtain e where "remote_attempt outcome = Inl e"
      using remote_attempt_failure [of outcome] by blast
    then show "calculatePerplexity t True onApiError outcome u s =
        (Inr (Some (local_score t u)), (case onApiError of None \<Rightarrow> s | Some hook \<Rightarrow> hook s)) \<and>
      calculatePerplexity t True onApiError outcome u s =
        calculatePerplexity t False None outcome u
          (case onApiError of None \<Rightarrow> s | Some hook \<Rightarrow> hook s)"
      by (simp add: calculatePerplexity.simps [of t True] calculatePerplexity_local)
  qed
  have b: "calculatePerplexity t True onApiError (Response True (JsonValue None)) u s = (Inr None, s)"
    by (simp add: calculatePerplexity.simps [of t True] remote_attempt_def)
  from a b show ?thesis by (rule conjI)
qed

text \<open>A response with status 500: the hook (here a counter) is called once and the score is
  the local one, 45/4. An \<open>ok\<close> response with the body \<open>{}\<close>: \<open>undefined\<close>, and the counter
  stays 0.\<close>

theorem remote_fallback_and_missing_field_witness:
  "calculatePerplexity ''a a'' True (Some Suc) (Response False (JsonValue (Some 3))) (1 / 2) (0::nat)
     = (Inr (Some (45 / 4)), 1) \<and>
   calculatePerplexity ''a a'' True (Some Suc) (Response True (JsonValue None)) (1 / 2) (0::nat)
     = (Inr None, 0) \<and>
   calculatePerplexity ''a a'' False None (Response True (JsonValue None)) (1 / 2) (Suc 0)
     = (Inr (Some (45 / 4)), 1)"
  using remote_fallback_and_missing_field
    [of "Response False (JsonValue (Some 3))" "''a a''" "Some Suc" "1 / 2" "0::nat"]
  by (simp add: local_score_a_a calculatePerplexity_local)

section \<open>Facts about lodash functions and the steps of the analysis\<close>









lemma find_Some_id: "find (\<lambda>row. row_id row = i) rows = Some r \<Longrightarrow> row_id r = i"
  by (induction rows) (auto split: if_splits)


lemma set_baseUniq: "set (baseUniq xs result) = set xs \<union> set result"
  by (induction xs arbitrary: result) auto

lemma distinct_baseUniq: "distinct result \<Longrightarrow> distinct (baseUniq xs result)"
  by (induction xs arbitrary: result) auto

lemma set_uniq_lodash: "set (uniq_lodash xs) = set xs"
  by (simp add: uniq_lodash_def set_baseUniq)

lemma distinct_uniq_lodash: "distinct (uniq_lodash xs)"
  by (simp add: uniq_lodash_def distinct_baseUniq)

lemma length_uniq_lodash: "length (uniq_lodash xs) = card (set xs)"
  using distinct_card [OF distinct_uniq_lodash [of xs]] by (simp add: set_uniq_lodash)

lemma length_union_lodash: "length (union_lodash arrays) = card (\<Union>a\<in>set arrays. set a)"
  by (simp add: union_lodash_def length_uniq_lodash)

lemma length_intersection_lodash:
  "arrays \<noteq> [] \<Longrightarrow> length (intersection_lodash arrays) = card (\<Inter>a\<in>set arrays. set a)"
proof (cases arrays)
  case Nil
  assume "arrays \<noteq> []"
  with Nil show ?thesis by simp
next
  case (Cons first others)
  have "set (filter (\<lambda>x. list_all (\<lambda>other. x \<in> set other) others) first)
          = (\<Inter>a\<in>set (first # others). set a)"
    by (auto simp: list_all_iff)
  with Cons show ?thesis
    by (simp add: intersection_lodash_def length_uniq_lodash)
qed

lemma toString_Inl: "toString v = Inl e \<longleftrightarrow> e = TypeError \<and> (v = JUndefined \<or> v = JNull)"
  by (cases v) (auto simp: toString_def)

lemma map_throwing_Inr:
  "map_throwing f xs = Inr ys \<longleftrightarrow> map f xs = map Inr ys"
proof (induction xs arbitrary: ys)
  case Nil
  show ?case by auto
next
  case (Cons x xs)
  show ?case
  proof (cases "f x")
    case (Inl e)
    then show ?thesis by (cases ys) auto
  next
    case (Inr y)
    show ?thesis
    proof (cases "map_throwing f xs")
      case (Inl e)
      have "\<And>zs. map f xs \<noteq> map Inr zs"
        using Cons.IH Inl by (metis sum.distinct(1))
      with Inl Inr show ?thesis by (cases ys) auto
    next
      case (Inr zs)
      then have "map f xs = map Inr zs" using Cons.IH by simp
      with Inr \<open>f x = Inr y\<close> show ?thesis
        by (cases ys) (auto simp: inj_map_eq_map [OF inj_Inr])
    qed
  qed
qed

lemma map_throwing_Inl:
  assumes "\<And>x e. f x = Inl e \<Longrightarrow> e = c"
  shows "map_throwing f xs = Inl e \<longleftrightarrow> e = c \<and> (\<exists>x\<in>set xs. f x = Inl c)"
proof (induction xs)
  case Nil
  show ?case by simp
next
  case (Cons x xs)
  show ?case
  proof (cases "f x")
    case (Inl e')
    with assms have "e' = c" by simp
    with Inl show ?thesis by auto
  next
    case (Inr y)
    with Cons show ?thesis by (auto split: sum.splits)
  qed
qed

lemma map_throwing_total:
  "(\<exists>ys. map_throwing f xs = Inr ys) \<longleftrightarrow> (\<forall>x\<in>set xs. \<exists>y. f x = Inr y)"
proof (induction xs)
  case Nil
  show ?case by simp
next
  case (Cons x xs)
  then show ?case by (cases "f x") (auto split: sum.splits)
qed

lemma row_ids_Inl:
  "map_throwing (\<lambda>row. toString (row_id row)) rows = Inl e \<longleftrightarrow>
     e = TypeError \<and> (\<exists>row\<in>set rows. row_id row = JUndefined \<or> row_id row = JNull)"
proof -
  have "map_throwing (\<lambda>row. toString (row_id row)) rows = Inl e \<longleftrightarrow>
          e = TypeError \<and> (\<exists>row\<in>set rows. toString (row_id row) = Inl TypeError)"
    by (rule map_throwing_Inl) (simp add: toString_Inl)
  then show ?thesis by (simp add: toString_Inl)
qed

lemma allIds_of_Inl:
  "allIds_of selectedFiles = Inl e \<longleftrightarrow>
     e = TypeError \<and>
     (\<exists>file\<in>set selectedFiles. \<exists>row\<in>set (data file). row_id row = JUndefined \<or> row_id row = JNull)"
proof -
  have "allIds_of selectedFiles = Inl e \<longleftrightarrow>
          e = TypeError \<and>
          (\<exists>file\<in>set selectedFiles.
             map_throwing (\<lambda>row. toString (row_id row)) (data file) = Inl TypeError)"
    unfolding allIds_of_def by (rule map_throwing_Inl) (simp add: row_ids_Inl)
  then show ?thesis by (simp add: row_ids_Inl)
qed

lemma row_ids_set:
  "map_throwing (\<lambda>row. toString (row_id row)) (data file) = Inr ids \<Longrightarrow> set ids = id_strings file"
proof -
  assume "map_throwing (\<lambda>row. toString (row_id row)) (data file) = Inr ids"
  then have m: "map (\<lambda>row. toString (row_id row)) (data file) = map Inr ids"
    by (simp add: map_throwing_Inr)
  have "\<And>rows. map (\<lambda>row. toString (row_id row)) rows = map Inr ids \<Longrightarrow>
      concat (map (\<lambda>row. case toString (row_id row) of Inr s \<Rightarrow> [s] | Inl e \<Rightarrow> []) rows) = ids"
  proof (induction ids)
    case Nil
    then show ?case by simp
  next
    case (Cons i ids)
    then show ?case by (cases rows) auto
  qed
  from this [OF m] show ?thesis by (simp only: id_strings_def)
qed

lemma allIds_of_sets:
  "allIds_of selectedFiles = Inr allIds \<Longrightarrow> map set allIds = map id_strings selectedFiles"
proof (induction selectedFiles arbitrary: allIds)
  case Nil
  then show ?case by (auto simp: allIds_of_def)
next
  case (Cons f fs)
  from Cons.prems obtain ids rest where
    a: "map_throwing (\<lambda>row. toString (row_id row)) (data f) = Inr ids" and
    b: "allIds_of fs = Inr rest" and c: "allIds = ids # rest"
    by (auto simp: allIds_of_def split: sum.splits)
  from b have "map set rest = map id_strings fs" by (rule Cons.IH)
  with a c show ?case by (simp add: row_ids_set)
qed

lemma score_rows_never_throws:
  "\<exists>file_scores s'. score_rows useRemoteApi onApiError env i rows s = (Inr file_scores, s')"
proof (induction rows arbitrary: i s)
  case Nil
  show ?case by simp
next
  case (Cons row rows)
  obtain p s1 where a: "calculatePerplexity (toString_or_empty (row_text row)) useRemoteApi
      (Some onApiError) (fst (env i)) (snd (env i)) s = (Inr p, s1)"
    using calculatePerplexity_never_throws [of "toString_or_empty (row_text row)" useRemoteApi
        "Some onApiError" "fst (env i)" "snd (env i)" s] by blast
  obtain rest s2 where b: "score_rows useRemoteApi onApiError env (Suc i) rows s1 = (Inr rest, s2)"
    using Cons.IH [of "Suc i" s1] by blast
  from a b show ?case by (simp add: Let_def)
qed

lemma score_files_never_throws:
  "\<exists>reports s'. score_files useRemoteApi onApiError env j files s = (Inr reports, s')"
proof (induction files arbitrary: j s)
  case Nil
  show ?case by simp
next
  case (Cons f fs)
  obtain file_scores s1 where
    a: "score_rows useRemoteApi onApiError (env j) 0 (data f) s = (Inr file_scores, s1)"
    using score_rows_never_throws [of useRemoteApi onApiError "env j" 0 "data f" s] by blast
  obtain rest s2 where b: "score_files useRemoteApi onApiError env (Suc j) fs s1 = (Inr rest, s2)"
    using Cons.IH [of "Suc j" s1] by blast
  from a b show ?case by simp
qed

lemma analyzeFiles_id_counts:
  "map_sum (\<lambda>e. e) (\<lambda>result. (commonIds result, totalUniqueIds result))
      (fst (analyzeFiles selectedFiles useRemoteApi onApiError env s))
   = map_sum (\<lambda>e. e) (\<lambda>allIds. (length (intersection_lodash allIds), length (union_lodash allIds)))
      (allIds_of selectedFiles)"
proof -
  obtain reports s1 where
    "score_files useRemoteApi onApiError env 0 selectedFiles s = (Inr reports, s1)"
    using score_files_never_throws [of useRemoteApi onApiError env 0 selectedFiles s] by blast
  then show ?thesis
    by (cases "allIds_of selectedFiles") (simp_all add: analyzeFiles_def Let_def)
qed


lemma analyzeFiles_Inl:
  "fst (analyzeFiles selectedFiles useRemoteApi onApiError env s) = Inl e \<longleftrightarrow>
     allIds_of selectedFiles = Inl e"
  using analyzeFiles_id_counts [of selectedFiles useRemoteApi onApiError env s]
  by (cases "fst (analyzeFiles selectedFiles useRemoteApi onApiError env s)";
      cases "allIds_of selectedFiles") auto

lemma show_int_1: "show_int 1 = ''1''"
  by (simp add: show_int_def show_nat.simps)

lemma show_int_2: "show_int 2 = ''2''"
  by (simp add: show_int_def show_nat.simps)

lemma id_strings_A: "id_strings example_A = {''1'', ''2''}"
  by (simp add: id_strings_def example_A_def example_file_def toString_def show_int_1 show_int_2)

lemma id_strings_B: "id_strings example_B = {''1'', ''2''}"
  by (simp add: id_strings_def example_B_def example_file_def toString_def show_int_1 show_int_2)

lemma id_strings_C: "id_strings example_C = {''1''}"
  by (simp add: id_strings_def example_C_def example_file_def toString_def)

lemma analyzeFiles_returns:
  "\<forall>file\<in>set selectedFiles. \<forall>row\<in>set (data file). row_id row \<noteq> JUndefined \<and> row_id row \<noteq> JNull
     \<Longrightarrow> \<exists>result. fst (analyzeFiles selectedFiles useRemoteApi onApiError env s) = Inr result"
proof -
  assume n: "\<forall>file\<in>set selectedFiles. \<forall>row\<in>set (data file).
      row_id row \<noteq> JUndefined \<and> row_id row \<noteq> JNull"
  show ?thesis
  proof (cases "fst (analyzeFiles selectedFiles useRemoteApi onApiError env s)")
    case (Inl e)
    then have "allIds_of selectedFiles = Inl e" by (simp add: analyzeFiles_Inl)
    then have "\<exists>file\<in>set selectedFiles. \<exists>row\<in>set (data file).
        row_id row = JUndefined \<or> row_id row = JNull"
      by (simp add: allIds_of_Inl)
    with n show ?thesis by blast
  next
    case (Inr result)
    then show ?thesis by blast
  qed
qed

lemma analyzeFiles_ABC_returns:
  "\<exists>result. fst (analyzeFiles [example_A, example_B, example_C] False (\<lambda>s. s) example_env ()) = Inr result"
  by (rule analyzeFiles_returns)
     (simp add: example_A_def example_B_def example_C_def example_file_def)


section \<open>The comparison of two texts\<close>




section \<open>The whole analysis and its id counts\<close>



text \<open>
  C8, as amended. When \<open>analyzeFiles\<close> returns a result, \<open>totalUniqueIds\<close> is the size of the
  union, and for at least one selected file \<open>commonIds\<close> is the size of the intersection, of
  the id sets of all selected files, where the ids are compared as the strings
  \<open>row.id.toString()\<close> gives (the number 1 and the string \<open>1\<close> are the same id). With no
  file selected \<open>commonIds\<close> is 0.
\<close>

theorem id_counts_over_all_files:
  assumes "fst (analyzeFiles selectedFiles useRemoteApi onApiError env s) = Inr result"
  shows "totalUniqueIds result = card (\<Union>file\<in>set selectedFiles. id_strings file) \<and>
         (selectedFiles \<noteq> [] \<longrightarrow>
            commonIds result = card (\<Inter>file\<in>set selectedFiles. id_strings file)) \<and>
         (selectedFiles = [] \<longrightarrow> commonIds result = 0)"
proof -
  from assms obtain allIds where
    ids: "allIds_of selectedFiles = Inr allIds" and
    c: "commonIds result = length (intersection_lodash allIds)" and
    t: "totalUniqueIds result = length (union_lodash allIds)"
    using analyzeFiles_id_counts [of selectedFiles useRemoteApi onApiError env s]
    by (cases "allIds_of selectedFiles") auto
  from ids have m: "map set allIds = map id_strings selectedFiles" by (rule allIds_of_sets)
  have sets: "set ` set allIds = id_strings ` set selectedFiles"
    using arg_cong [OF m, of set] by simp
  have u: "(\<Union>a\<in>set allIds. set a) = (\<Union>file\<in>set selectedFiles. id_strings file)"
    using arg_cong [OF sets, of Union] by simp
  have i: "(\<Inter>a\<in>set allIds. set a) = (\<Inter>file\<in>set selectedFiles. id_strings file)"
    using arg_cong [OF sets, of Inter] by simp
  have e: "selectedFiles = [] \<longleftrightarrow> allIds = []"
    using m by (cases selectedFiles; cases allIds) auto
  have "totalUniqueIds result = card (\<Union>file\<in>set selectedFiles. id_strings file)"
    using t u by (simp add: length_union_lodash)
  moreover have "selectedFiles \<noteq> [] \<longrightarrow>
      commonIds result = card (\<Inter>file\<in>set selectedFiles. id_strings file)"
    using c i e by (simp add: length_intersection_lodash)
  moreover have "selectedFiles = [] \<longrightarrow> commonIds result = 0"
    using c e by (simp add: intersection_lodash_def)
  ultimately show ?thesis by blast
qed

text \<open>Three files: A and B share two ids, all three share one.\<close>

theorem id_counts_over_all_files_witness:
  "map_sum (\<lambda>e. e) (\<lambda>result. (commonIds result, totalUniqueIds result))
     (fst (analyzeFiles [example_A, example_B, example_C] False (\<lambda>s. s) example_env ())) = Inr (1, 2) \<and>
   card (id_strings example_A \<inter> id_strings example_B) = 2 \<and>
   card (id_strings example_A \<inter> id_strings example_B \<inter> id_strings example_C) = 1"
proof -
  obtain result where
    r: "fst (analyzeFiles [example_A, example_B, example_C] False (\<lambda>s. s) example_env ()) = Inr result"
    using analyzeFiles_ABC_returns by blast
  from id_counts_over_all_files [OF r]
  have "totalUniqueIds result = 2 \<and> commonIds result = 1"
    by (simp add: id_strings_A id_strings_B id_strings_C)
  with r show ?thesis
    by (simp add: id_strings_A id_strings_B id_strings_C)
qed

text \<open>
  C8 as stated fails: file A has the numbers 1 and 2 as ids and file C the string \<open>1\<close>. The
  id sets as found in the rows are disjoint, and \<open>commonIds\<close> is 1.
\<close>

theorem raw_id_sets_counterexample:
  "map_sum (\<lambda>e. e) commonIds
     (fst (analyzeFiles [example_A, example_C] False (\<lambda>s. s) example_env ())) = Inr 1 \<and>
   card (raw_ids example_A \<inter> raw_ids example_C) = 0"
proof -
  have ids: "allIds_of [example_A, example_C] = Inr [[''1'', ''2''], [''1'']]"
    by (simp add: allIds_of_def example_A_def example_C_def example_file_def toString_def
        show_int_1 show_int_2)
  have "map_sum (\<lambda>e. e) (\<lambda>result. (commonIds result, totalUniqueIds result))
      (fst (analyzeFiles [example_A, example_C] False (\<lambda>s. s) example_env ())) = Inr (1, 2)"
    by (simp add: analyzeFiles_id_counts ids intersection_lodash_def union_lodash_def
        uniq_lodash_def)
  then have "map_sum (\<lambda>e. e) commonIds
      (fst (analyzeFiles [example_A, example_C] False (\<lambda>s. s) example_env ())) = Inr 1"
    by (cases "fst (analyzeFiles [example_A, example_C] False (\<lambda>s. s) example_env ())") auto
  moreover have "card (raw_ids example_A \<inter> raw_ids example_C) = 0"
    by (simp add: raw_ids_def example_A_def example_C_def example_file_def)
  ultimately show ?thesis by simp
qed

section \<open>The best text of every id\<close>

lemma find_append_cases:
  "find P (xs @ ys) = (case find P xs of None \<Rightarrow> find P ys | Some x \<Rightarrow> Some x)"
  by (induction xs) auto


lemma find_SomeD: "find P xs = Some x \<Longrightarrow> x \<in> set xs \<and> P x"
  by (induction xs) (auto split: if_splits)

lemma baseExtremum_loop_append:
  "baseExtremum_loop f lt (xs @ ys) acc = baseExtremum_loop f lt ys (baseExtremum_loop f lt xs acc)"
  by (induction xs arbitrary: acc) (auto split: option.splits)

text \<open>What the loop of \<open>baseExtremum\<close> returns for a transitive comparator.\<close>

lemma baseExtremum_loop_spec:
  assumes tr: "\<And>a b c. lt a b \<Longrightarrow> lt b c \<Longrightarrow> lt a c" and irr: "\<And>a. \<not> lt a a"
  shows "case baseExtremum_loop f lt xs None of
           None \<Rightarrow> (\<forall>x\<in>set xs. f x = None)
         | Some (m, b) \<Rightarrow> find (\<lambda>x. f x = Some m) xs = Some b \<and>
                           (\<forall>x\<in>set xs. \<forall>v. f x = Some v \<longrightarrow> \<not> lt v m)"
proof (induction xs rule: rev_induct)
  case Nil
  show ?case by simp
next
  case (snoc x xs)
  show ?case
  proof (cases "f x")
    case None
    with snoc show ?thesis
      by (auto simp: baseExtremum_loop_append find_append_cases split: option.splits)
  next
    case (Some c)
    show ?thesis
    proof (cases "baseExtremum_loop f lt xs None")
      case None
      with snoc have "\<forall>y\<in>set xs. f y = None" by simp
      then have "find (\<lambda>y. f y = Some c) xs = None" by (auto simp: find_None_iff)
      with None Some \<open>\<forall>y\<in>set xs. f y = None\<close> irr show ?thesis
        by (auto simp: baseExtremum_loop_append find_append_cases)
    next
      case acc: (Some mb)
      obtain m b where mb: "mb = (m, b)" by (cases mb)
      from snoc acc mb have fi: "find (\<lambda>y. f y = Some m) xs = Some b"
        and le: "\<forall>y\<in>set xs. \<forall>v. f y = Some v \<longrightarrow> \<not> lt v m" by auto
      show ?thesis
      proof (cases "lt c m")
        case True
        have "\<forall>y\<in>set xs. \<forall>v. f y = Some v \<longrightarrow> \<not> lt v c"
          using le tr True by blast
        moreover have "find (\<lambda>y. f y = Some c) xs = None"
          using le True by (auto simp: find_None_iff)
        moreover have "\<not> lt c c" by (rule irr)
        ultimately show ?thesis using acc mb Some True
          by (auto simp: baseExtremum_loop_append find_append_cases)
      next
        case False
        with acc mb Some fi le show ?thesis
          by (auto simp: baseExtremum_loop_append find_append_cases)
      qed
    qed
  qed
qed



















section \<open>The histogram\<close>

lemma length_baseRange_loop: "length (baseRange_loop n start step) = n"
  by (induction n arbitrary: start) auto

lemma baseRange_loop_eq:
  "baseRange_loop n start step = map (\<lambda>k. start + real k * step) [0..<n]"
proof (induction n arbitrary: start)
  case 0
  show ?case by simp
next
  case (Suc n)
  have "map (\<lambda>k. start + real k * step) [0..<Suc n]
          = start # map (\<lambda>k. start + real (Suc k) * step) [0..<n]"
    by (simp add: upt_conv_Cons map_Suc_upt [symmetric] del: upt_Suc)
  also have "\<dots> = start # map (\<lambda>k. (start + step) + real k * step) [0..<n]"
    by (simp add: algebra_simps)
  finally show ?case by (simp add: Suc)
qed

lemma distribution_of_starts:
  "map fst (distribution_of ps) =
     (let min_v = real_of_int \<lfloor>or_default (min_lodash ps) 0\<rfloor>;
          max_v = real_of_int \<lceil>or_default (max_lodash ps) 30\<rceil>;
          bucketSize = (max_v - min_v) / 10
      in range_lodash min_v (max_v + bucketSize) bucketSize)"
  by (simp add: distribution_of_def Let_def comp_def)

lemma baseExtremum_loop_less:
  fixes f :: "'a \<Rightarrow> ('b::linorder) option"
  shows "case baseExtremum_loop f (\<lambda>a b. a < b) xs None of
           None \<Rightarrow> (\<forall>x\<in>set xs. f x = None)
         | Some (m, b) \<Rightarrow> find (\<lambda>x. f x = Some m) xs = Some b \<and>
                           (\<forall>x\<in>set xs. \<forall>v. f x = Some v \<longrightarrow> \<not> v < m)"
  by (rule baseExtremum_loop_spec) auto

lemma baseExtremum_loop_greater:
  fixes f :: "'a \<Rightarrow> ('b::linorder) option"
  shows "case baseExtremum_loop f (\<lambda>a b. a > b) xs None of
           None \<Rightarrow> (\<forall>x\<in>set xs. f x = None)
         | Some (m, b) \<Rightarrow> find (\<lambda>x. f x = Some m) xs = Some b \<and>
                           (\<forall>x\<in>set xs. \<forall>v. f x = Some v \<longrightarrow> \<not> v > m)"
  by (rule baseExtremum_loop_spec) auto

lemma min_lodash_None: "min_lodash ps = None \<Longrightarrow> \<forall>p\<in>set ps. p = None"
proof -
  assume a: "min_lodash ps = None"
  show ?thesis
  proof (cases "baseExtremum_loop (\<lambda>v. v) (\<lambda>a b. a < b) ps None")
    case None
    with baseExtremum_loop_less [where f = "\<lambda>v. v" and xs = ps] show ?thesis by simp
  next
    case (Some mb)
    obtain m b where mb: "mb = (m, b)" by (cases mb)
    from baseExtremum_loop_less [where f = "\<lambda>v. v" and xs = ps] Some mb
    have "find (\<lambda>x. x = Some m) ps = Some b" by simp
    from find_SomeD [OF this] have "b = Some m" by simp
    with Some mb a show ?thesis by (simp add: min_lodash_def baseExtremum_def)
  qed
qed

lemma min_lodash_Some:
  "min_lodash ps = Some m \<Longrightarrow> Some m \<in> set ps \<and> (\<forall>v. Some v \<in> set ps \<longrightarrow> m \<le> v)"
proof -
  assume a: "min_lodash ps = Some m"
  show ?thesis
  proof (cases "baseExtremum_loop (\<lambda>v. v) (\<lambda>a b. a < b) ps None")
    case None
    with a show ?thesis by (simp add: min_lodash_def baseExtremum_def)
  next
    case (Some mb)
    obtain m' b where mb: "mb = (m', b)" by (cases mb)
    from baseExtremum_loop_less [where f = "\<lambda>v. v" and xs = ps] Some mb
    have fi: "find (\<lambda>x. x = Some m') ps = Some b"
      and le: "\<forall>x\<in>set ps. \<forall>v. x = Some v \<longrightarrow> \<not> v < m'" by simp_all
    from find_SomeD [OF fi] have b: "b \<in> set ps" "b = Some m'" by auto
    with Some mb a have "m' = m" by (simp add: min_lodash_def baseExtremum_def)
    with b le show ?thesis by (simp add: not_less)
  qed
qed

lemma max_lodash_None: "max_lodash ps = None \<Longrightarrow> \<forall>p\<in>set ps. p = None"
proof -
  assume a: "max_lodash ps = None"
  show ?thesis
  proof (cases "baseExtremum_loop (\<lambda>v. v) (\<lambda>a b. a > b) ps None")
    case None
    with baseExtremum_loop_greater [where f = "\<lambda>v. v" and xs = ps] show ?thesis by simp
  next
    case (Some mb)
    obtain m b where mb: "mb = (m, b)" by (cases mb)
    from baseExtremum_loop_greater [where f = "\<lambda>v. v" and xs = ps] Some mb
    have "find (\<lambda>x. x = Some m) ps = Some b" by simp
    from find_SomeD [OF this] have "b = Some m" by simp
    with Some mb a show ?thesis by (simp add: max_lodash_def baseExtremum_def)
  qed
qed

lemma max_lodash_Some:
  "max_lodash ps = Some m \<Longrightarrow> Some m \<in> set ps \<and> (\<forall>v. Some v \<in> set ps \<longrightarrow> v \<le> m)"
proof -
  assume a: "max_lodash ps = Some m"
  show ?thesis
  proof (cases "baseExtremum_loop (\<lambda>v. v) (\<lambda>a b. a > b) ps None")
    case None
    with a show ?thesis by (simp add: max_lodash_def baseExtremum_def)
  next
    case (Some mb)
    obtain m' b where mb: "mb = (m', b)" by (cases mb)
    from baseExtremum_loop_greater [where f = "\<lambda>v. v" and xs = ps] Some mb
    have fi: "find (\<lambda>x. x = Some m') ps = Some b"
      and le: "\<forall>x\<in>set ps. \<forall>v. x = Some v \<longrightarrow> \<not> v > m'" by simp_all
    from find_SomeD [OF fi] have b: "b \<in> set ps" "b = Some m'" by auto
    with Some mb a have "m' = m" by (simp add: max_lodash_def baseExtremum_def)
    with b le show ?thesis by (simp add: not_less)
  qed
qed

lemma lodash_extrema_constant:
  assumes "ps \<noteq> []" and "\<forall>p\<in>set ps. p = Some c"
  shows "min_lodash ps = Some c \<and> max_lodash ps = Some c"
proof -
  from assms have p: "Some c \<in> set ps" by (cases ps) simp_all
  have "min_lodash ps = Some c"
  proof (cases "min_lodash ps")
    case None
    from min_lodash_None [OF this] p show ?thesis by blast
  next
    case (Some a)
    from min_lodash_Some [OF this] have "Some a \<in> set ps" by simp
    with assms(2) have "a = c" by blast
    with Some show ?thesis by simp
  qed
  moreover have "max_lodash ps = Some c"
  proof (cases "max_lodash ps")
    case None
    from max_lodash_None [OF this] p show ?thesis by blast
  next
    case (Some a)
    from max_lodash_Some [OF this] have "Some a \<in> set ps" by simp
    with assms(2) have "a = c" by blast
    with Some show ?thesis by simp
  qed
  ultimately show ?thesis by simp
qed

text \<open>
  C2. Let \<open>min\<close> and \<open>max\<close> be the floor and the ceiling the source computes, at most
  \<open>2^50\<close> in magnitude, with \<open>max - min\<close> a positive multiple \<open>10 * w\<close> of ten. Then every
  quantity of the computation is an integer, \<open>bucketSize\<close> is \<open>w\<close>, and the histogram has
  eleven buckets, not ten: \<open>_.range(min, max + bucketSize, bucketSize)\<close> gives the starts
  \<open>min, min + w, ..., max\<close>, the last bucket lying past \<open>max\<close>. The source's comment on
  \<open>bucketSize\<close> says \<open>10 buckets\<close>.
\<close>

theorem distribution_has_eleven_buckets:
  assumes "\<lceil>or_default (max_lodash ps) 30\<rceil> - \<lfloor>or_default (min_lodash ps) 0\<rfloor> = 10 * w"
    and "0 < w"
    and "\<bar>\<lfloor>or_default (min_lodash ps) 0\<rfloor>\<bar> \<le> 2 ^ 50"
    and "\<bar>\<lceil>or_default (max_lodash ps) 30\<rceil>\<bar> \<le> 2 ^ 50"
  shows "map fst (distribution_of ps) =
           map (\<lambda>k. real_of_int (\<lfloor>or_default (min_lodash ps) 0\<rfloor> + int k * w)) [0..<11] \<and>
         length (distribution_of ps) = 11"
proof -
  define lo where "lo = \<lfloor>or_default (min_lodash ps) 0\<rfloor>"
  define hi where "hi = \<lceil>or_default (max_lodash ps) 30\<rceil>"
  from assms(1) have hi: "real_of_int hi = real_of_int lo + 10 * real_of_int w"
    unfolding lo_def hi_def by linarith
  from assms(2) have w: "real_of_int w \<noteq> 0" by simp
  have size: "(real_of_int hi - real_of_int lo) / 10 = real_of_int w"
    by (simp add: hi)
  have "(real_of_int hi + real_of_int w - real_of_int lo) / real_of_int w = 11"
    using w by (simp add: hi field_simps)
  then have "range_lodash (real_of_int lo) (real_of_int hi + real_of_int w) (real_of_int w)
      = map (\<lambda>k. real_of_int lo + real k * real_of_int w) [0..<11]"
    using w by (simp add: range_lodash_def baseRange_loop_eq)
  then have "map fst (distribution_of ps) = map (\<lambda>k. real_of_int lo + real k * real_of_int w) [0..<11]"
    by (simp only: distribution_of_starts Let_def lo_def [symmetric] hi_def [symmetric] size)
  then have m: "map fst (distribution_of ps) = map (\<lambda>k. real_of_int (lo + int k * w)) [0..<11]"
    by simp
  have "length (distribution_of ps) = length (map fst (distribution_of ps))" by simp
  also have "\<dots> = 11" by (simp only: m) simp
  finally show ?thesis using m by (simp add: lo_def)
qed

text \<open>No score at all gives the eleven starts 0, 3, ..., 30; the scores 5 and 15 give the
  eleven starts 5, 6, ..., 15.\<close>

theorem distribution_has_eleven_buckets_witness:
  "map fst (distribution_of []) = [0, 3, 6, 9, 12, 15, 18, 21, 24, 27, 30] \<and>
   length (distribution_of []) = 11 \<and>
   map fst (distribution_of [Some 5, Some 15]) = [5, 6, 7, 8, 9, 10, 11, 12, 13, 14, 15] \<and>
   length (distribution_of [Some 5, Some 15]) = 11"
proof -
  have a: "min_lodash ([] :: real option list) = None" "max_lodash ([] :: real option list) = None"
    by (simp_all add: min_lodash_def max_lodash_def baseExtremum_def)
  have b: "min_lodash [Some 5, Some (15::real)] = Some 5" "max_lodash [Some 5, Some (15::real)] = Some 15"
    by (simp_all add: min_lodash_def max_lodash_def baseExtremum_def)
  from distribution_has_eleven_buckets [of "[]" 3]
  have "map fst (distribution_of []) = [0, 3, 6, 9, 12, 15, 18, 21, 24, 27, 30] \<and>
        length (distribution_of []) = 11"
    by (simp add: a or_default_def upt_conv_Cons)
  moreover from distribution_has_eleven_buckets [of "[Some 5, Some 15]" 1]
  have "map fst (distribution_of [Some 5, Some 15]) = [5, 6, 7, 8, 9, 10, 11, 12, 13, 14, 15] \<and>
        length (distribution_of [Some 5, Some 15]) = 11"
    by (simp add: b or_default_def upt_conv_Cons)
  ultimately show ?thesis by simp
qed

text \<open>
  C3. When all scores of a file are the same integer other than 0 (the local heuristic gives
  exactly 5 for every text without a repeated word), \<open>min\<close> and \<open>max\<close> are equal, the histogram
  has no bucket, and the sum of the counts is 0 and not the number of scores: every score is
  dropped.
\<close>

theorem distribution_empty_when_range_is_zero:
  assumes "ps \<noteq> []" and "\<forall>p\<in>set ps. p = Some (real_of_int n)" and "n \<noteq> 0"
  shows "distribution_of ps = [] \<and>
         sum_list (map snd (distribution_of ps)) = 0 \<and>
         sum_list (map snd (distribution_of ps)) \<noteq> length ps"
proof -
  from lodash_extrema_constant [OF assms(1,2)]
  have "min_lodash ps = Some (real_of_int n)" "max_lodash ps = Some (real_of_int n)" by auto
  with assms(3) have "map fst (distribution_of ps) = []"
    by (simp add: distribution_of_starts or_default_def range_lodash_def)
  then have "distribution_of ps = []" by simp
  with assms(1) show ?thesis by simp
qed

text \<open>One record with the score 5.\<close>

theorem distribution_empty_when_range_is_zero_witness:
  "distribution_of [Some 5] = [] \<and> sum_list (map snd (distribution_of [Some 5])) = 0 \<and>
   length [Some (5::real)] = 1"
  using distribution_empty_when_range_is_zero [of "[Some 5]" 5] by simp

end
